theory Spec2Isabelle
  imports Complex_Main
begin

section \<open>Common.ts: the two error classes\<close>

text \<open>
  \<^verbatim>\<open>MVC.SyntaxError(input)\<close> carries the text it was constructed with.  \<^verbatim>\<open>JSON.parse\<close>
  raises the runtime's own syntax error, which is a different class and carries no
  input text; it is kept apart as \<open>NativeSyntaxError\<close>.
\<close>

datatype error =
    SyntaxError string
  | InternalError string
  | NativeSyntaxError

section \<open>Lexer.ts\<close>

datatype token =
    T_begin | T_undefined | T_true | T_false | T_in | T_name | T_dot | T_number
  | T_string | T_operator | T_comma | T_left | T_right | T_left_square
  | T_right_square | T_pipe | T_end

record lexer =
  originalInput :: string
  input :: string
  token :: token
  label :: string

definition new_Lexer :: "string \<Rightarrow> lexer" where
  "new_Lexer s = \<lparr> originalInput = s, input = s, token = T_begin, label = [] \<rparr>"

subsection \<open>The regular expressions of \<^verbatim>\<open>Lexer.next\<close>\<close>

text \<open>
  A pattern maps the remaining input to \<^verbatim>\<open>result[0]\<close> of \<^verbatim>\<open>pattern.exec\<close>, or to
  \<open>None\<close> when \<^verbatim>\<open>exec\<close> returns null.  Characters are the code units 0..255.
\<close>

type_synonym pattern = "string \<Rightarrow> string option"

definition isSpace :: "char \<Rightarrow> bool" where
  "isSpace c = (c \<in> set [CHR 0x09, CHR 0x0A, CHR 0x0B, CHR 0x0C, CHR 0x0D, CHR 0x20, CHR 0xA0])"

definition isDigit :: "char \<Rightarrow> bool" where
  "isDigit c = (c \<in> set ''0123456789'')"

definition isNameStart :: "char \<Rightarrow> bool" where
  "isNameStart c = (c \<in> set ''ABCDEFGHIJKLMNOPQRSTUVWXYZabcdefghijklmnopqrstuvwxyz_'')"

definition isWord :: "char \<Rightarrow> bool" where
  "isWord c = (isNameStart c \<or> isDigit c)"

text \<open>\<^verbatim>\<open>/^\s+/\<close>\<close>

definition pat_space :: pattern where
  "pat_space s = (case takeWhile isSpace s of [] \<Rightarrow> None | l \<Rightarrow> Some l)"

text \<open>\<^verbatim>\<open>/^undefined/\<close>, \<^verbatim>\<open>/^true/\<close>, \<^verbatim>\<open>/^false/\<close>, \<^verbatim>\<open>/^\./\<close>, \<^verbatim>\<open>/^,/\<close>, ...: a fixed text at the start.\<close>

definition pat_text :: "string \<Rightarrow> pattern" where
  "pat_text t s = (if take (length t) s = t then Some t else None)"

text \<open>\<^verbatim>\<open>/^in\b/\<close>: the word boundary holds at the end of the input or before a non-word character.\<close>

definition pat_in :: pattern where
  "pat_in s =
     (if take 2 s = ''in'' \<and> (case drop 2 s of [] \<Rightarrow> True | c # _ \<Rightarrow> \<not> isWord c)
      then Some ''in'' else None)"

text \<open>\<^verbatim>\<open>/^[A-Za-z_][A-Za-z0-9_]*/\<close>\<close>

definition pat_name :: pattern where
  "pat_name s =
     (case s of [] \<Rightarrow> None
      | c # cs \<Rightarrow> if isNameStart c then Some (c # takeWhile isWord cs) else None)"

text \<open>\<^verbatim>\<open>/^[0-9]+/\<close>\<close>

definition pat_number :: pattern where
  "pat_number s = (case takeWhile isDigit s of [] \<Rightarrow> None | l \<Rightarrow> Some l)"

text \<open>
  \<^verbatim>\<open>/^"([^"](\\"))*"/\<close> and \<^verbatim>\<open>/^'([^'](\\'))*'/\<close>, for the quote \<open>q\<close>: the quote, then as many
  groups as possible of three characters (one that is not the quote, a backslash, the
  quote), then the quote.  Giving a group back never helps the match: the character
  that would then have to be the closing quote is the first of that group, which is
  not a quote.
\<close>

fun string_groups :: "char \<Rightarrow> string \<Rightarrow> string" where
  "string_groups q (c # b # e # s) =
     (if c \<noteq> q \<and> b = CHR 0x5C \<and> e = q then c # b # e # string_groups q s else [])"
| "string_groups q s = []"

definition pat_string :: "char \<Rightarrow> pattern" where
  "pat_string q s =
     (case s of [] \<Rightarrow> None
      | c # cs \<Rightarrow>
          if c = q then
            (let g = string_groups q cs in
             case drop (length g) cs of [] \<Rightarrow> None
             | d # _ \<Rightarrow> if d = q then Some (q # g @ [q]) else None)
          else None)"

text \<open>
  The three operator patterns are alternations, and \<^verbatim>\<open>^\<close> binds to the first alternative
  only: \<^verbatim>\<open>/^\>\>\>|\=\=\=|\!\=\=/\<close> is \<^verbatim>\<open>^>>>\<close> or \<^verbatim>\<open>===\<close> anywhere or \<^verbatim>\<open>!==\<close> anywhere.
  \<^verbatim>\<open>exec\<close> returns the match at the leftmost position where an alternative matches,
  trying the alternatives in their order there.  An alternative is a pair: whether it is
  anchored, and its text.
\<close>

fun alternative_at :: "(bool \<times> string) list \<Rightarrow> bool \<Rightarrow> string \<Rightarrow> string option" where
  "alternative_at [] start s = None"
| "alternative_at ((anchored, t) # alts) start s =
     (if (if anchored then start else True) \<and> take (length t) s = t then Some t
      else alternative_at alts start s)"

fun exec_from :: "(bool \<times> string) list \<Rightarrow> bool \<Rightarrow> string \<Rightarrow> string option" where
  "exec_from alts start [] = alternative_at alts start []"
| "exec_from alts start (c # cs) =
     (case alternative_at alts start (c # cs) of
        Some t \<Rightarrow> Some t
      | None \<Rightarrow> exec_from alts False cs)"

definition pat_alternatives :: "(bool \<times> string) list \<Rightarrow> pattern" where
  "pat_alternatives alts s = exec_from alts True s"

definition operators3 :: "(bool \<times> string) list" where
  "operators3 = [(True, ''>>>''), (False, ''===''), (False, ''!=='')]"

definition operators2 :: "(bool \<times> string) list" where
  "operators2 =
     [(True, ''**''), (False, ''<<''), (False, ''>>''), (False, ''<=''), (False, ''>=''),
      (False, ''==''), (False, ''!=''), (False, ''??''), (False, ''&&''), (False, ''||'')]"

definition operators1 :: "(bool \<times> string) list" where
  "operators1 =
     [(True, ''+''), (False, ''-''), (False, ''*''), (False, ''/''), (False, ''%''),
      (False, ''<''), (False, ''>''), (False, ''!'')]"

text \<open>The cases of the \<^verbatim>\<open>switch (true)\<close> of \<^verbatim>\<open>next\<close>, in their order.\<close>

definition rules :: "(token \<times> pattern) list" where
  "rules =
     [(T_undefined, pat_text ''undefined''),
      (T_true, pat_text ''true''),
      (T_false, pat_text ''false''),
      (T_in, pat_in),
      (T_name, pat_name),
      (T_dot, pat_text ''.''),
      (T_number, pat_number),
      (T_string, pat_string (CHR 0x22)),
      (T_string, pat_string (CHR 0x27)),
      (T_operator, pat_alternatives operators3),
      (T_operator, pat_alternatives operators2),
      (T_operator, pat_alternatives operators1),
      (T_comma, pat_text '',''),
      (T_left, pat_text ''(''),
      (T_right, pat_text '')''),
      (T_left_square, pat_text ''[''),
      (T_right_square, pat_text '']''),
      (T_pipe, pat_text ''|'')]"

subsection \<open>The methods\<close>

text \<open>
  \<^verbatim>\<open>_read\<close>: on a match the input loses as many characters as the match is long, from
  its front (\<^verbatim>\<open>this._input.substr(label.length)\<close>), wherever the match was found.
\<close>

definition lexer_read :: "pattern \<Rightarrow> lexer \<Rightarrow> string option \<times> lexer" where
  "lexer_read p lx =
     (case p (input lx) of
        Some l \<Rightarrow> (Some l, lx\<lparr>input := drop (length l) (input lx)\<rparr>)
      | None \<Rightarrow> (None, lx))"

definition lexer_match :: "token \<Rightarrow> pattern \<Rightarrow> lexer \<Rightarrow> bool \<times> lexer" where
  "lexer_match t p lx =
     (case lexer_read p lx of
        (Some l, lx') \<Rightarrow> (True, lx'\<lparr>label := l, token := t\<rparr>)
      | (None, lx') \<Rightarrow> (False, lx'))"

text \<open>The \<^verbatim>\<open>switch (true)\<close>: the first case whose \<^verbatim>\<open>_match\<close> returns true ends it.\<close>

fun match_first :: "(token \<times> pattern) list \<Rightarrow> lexer \<Rightarrow> lexer option" where
  "match_first [] lx = None"
| "match_first ((t, p) # rs) lx =
     (case lexer_match t p lx of
        (True, lx') \<Rightarrow> Some lx'
      | (False, lx') \<Rightarrow> match_first rs lx')"

lemma lexer_read_space_shorter:
  assumes "lexer_read pat_space lx = (Some l, lx')"
  shows "length (input lx') < length (input lx)"
proof (cases "takeWhile isSpace (input lx)")
  case Nil
  with assms show ?thesis by (simp add: lexer_read_def pat_space_def)
next
  case (Cons c cs)
  then have "input lx \<noteq> []" by auto
  moreover from assms Cons have "input lx' = drop (Suc (length cs)) (input lx)"
    by (auto simp: lexer_read_def pat_space_def)
  ultimately show ?thesis by simp
qed

function lexer_next :: "lexer \<Rightarrow> error + token \<times> lexer" where
  "lexer_next lx =
     (if input lx = [] then Inr (T_end, lx\<lparr>label := [], token := T_end\<rparr>)
      else
        (case lexer_read pat_space lx of
           (Some l, lx') \<Rightarrow> lexer_next lx'
         | (None, lx') \<Rightarrow>
             (case match_first rules lx' of
                Some lx'' \<Rightarrow> Inr (token lx'', lx'')
              | None \<Rightarrow> Inl (SyntaxError (originalInput lx')))))"
  by pat_completeness auto
termination
  by (relation "measure (\<lambda>lx. length (input lx))") (auto dest: lexer_read_space_shorter [OF sym])

declare lexer_next.simps [simp del]

definition lexer_step :: "lexer \<Rightarrow> error + string \<times> lexer" where
  "lexer_step lx =
     (case lexer_next lx of
        Inl e \<Rightarrow> Inl e
      | Inr (t, lx') \<Rightarrow> Inr (label lx, lx'))"

definition lexer_expect :: "token list \<Rightarrow> lexer \<Rightarrow> error + string \<times> lexer" where
  "lexer_expect tokens lx =
     (if token lx \<in> set tokens then lexer_step lx
      else Inl (SyntaxError (originalInput lx)))"

section \<open>AST.ts\<close>

text \<open>
  Modelled from the spec: the type \<^verbatim>\<open>LiteralValue\<close> is declared in \<^verbatim>\<open>Types.ts\<close>, which is
  not among the source files; the spec gives a literal as a fixed scalar: undefined, a
  boolean, a number or a string.  The only numbers the parser makes are the values of
  digit sequences, so a number is held as a natural number (JavaScript holds it as the
  nearest double, which is that number below \<open>2 ^ 53\<close>).
\<close>

datatype literalValue =
    LV_undefined
  | LV_boolean bool
  | LV_number nat
  | LV_string string

text \<open>
  The classes of \<^verbatim>\<open>AST.ts\<close> are \<open>LiteralNode\<close> to \<open>PipeNode\<close>.  A \<open>LiteralNode\<close> keeps
  \<^verbatim>\<open>JSON.stringify(value)\<close>, which is \<^verbatim>\<open>undefined\<close> (here \<open>None\<close>) for the value undefined.
  The parser also constructs \<open>ReferenceNode\<close>, \<open>FieldComponent\<close>, \<open>SubscriptComponent\<close>,
  \<open>StaticFragmentNode\<close>, \<open>InterpolatedNode\<close>, \<open>CollectionIterationNode\<close> and
  \<open>DictionaryIterationNode\<close>, whose classes are not among the source files: they are
  constructors holding the constructor arguments the parser passes.
\<close>

datatype node =
    LiteralNode "string option"
  | VariableNode string
  | UnaryNode string node
  | BinaryNode string node node
  | BindNode string "node list"
  | PipeNode node node
  | ReferenceNode "component list"
  | StaticFragmentNode string
  | InterpolatedNode "node list"
  | CollectionIterationNode string node
  | DictionaryIterationNode string string node
and component =
    FieldComponent string
  | SubscriptComponent node

subsection \<open>\<^verbatim>\<open>JSON.stringify\<close> of a literal value\<close>

text \<open>
  The runtime's \<^verbatim>\<open>JSON.stringify\<close>: nothing for undefined, the keyword of a boolean, the
  decimal digits of a number (as JavaScript writes an integer below \<open>10 ^ 21\<close>), and a
  string between double quotes with its quotes, backslashes and control characters
  escaped.
\<close>

definition digit_char :: "nat \<Rightarrow> char" where
  "digit_char d = ''0123456789abcdef'' ! d"

fun decimal :: "nat \<Rightarrow> string" where
  "decimal n = (if n < 10 then [digit_char n] else decimal (n div 10) @ [digit_char (n mod 10)])"

declare decimal.simps [simp del]

definition json_escape :: "char \<Rightarrow> string" where
  "json_escape c =
     (if c = CHR 0x22 then [CHR 0x5C, CHR 0x22]
      else if c = CHR 0x5C then [CHR 0x5C, CHR 0x5C]
      else if c = CHR 0x08 then [CHR 0x5C, CHR ''b'']
      else if c = CHR 0x0C then [CHR 0x5C, CHR ''f'']
      else if c = CHR 0x0A then [CHR 0x5C, CHR ''n'']
      else if c = CHR 0x0D then [CHR 0x5C, CHR ''r'']
      else if c = CHR 0x09 then [CHR 0x5C, CHR ''t'']
      else if (of_char c :: nat) < 32 then
        [CHR 0x5C, CHR ''u'', CHR ''0'', CHR ''0'',
         digit_char (of_char c div 16), digit_char (of_char c mod 16)]
      else [c])"

definition JSON_stringify :: "literalValue \<Rightarrow> string option" where
  "JSON_stringify v =
     (case v of
        LV_undefined \<Rightarrow> None
      | LV_boolean b \<Rightarrow> Some (if b then ''true'' else ''false'')
      | LV_number n \<Rightarrow> Some (decimal n)
      | LV_string s \<Rightarrow> Some ([CHR 0x22] @ concat (map json_escape s) @ [CHR 0x22]))"

text \<open>\<^verbatim>\<open>new LiteralNode(value)\<close>\<close>

definition new_LiteralNode :: "literalValue \<Rightarrow> node" where
  "new_LiteralNode v = LiteralNode (JSON_stringify v)"

subsection \<open>\<^verbatim>\<open>unique\<close> and \<^verbatim>\<open>free\<close>\<close>

text \<open>
  \<^verbatim>\<open>unique(...elements)\<close>: an element is a string or an array of strings;
  \<^verbatim>\<open>array.concat(...elements)\<close> appends each string and the members of each array; a
  \<^verbatim>\<open>Set\<close> keeps its members in the order they were first added.
\<close>

datatype element = One string | Many "string list"

fun members :: "element \<Rightarrow> string list" where
  "members (One s) = [s]"
| "members (Many ss) = ss"

definition set_add :: "string list \<Rightarrow> string \<Rightarrow> string list" where
  "set_add seen x = (if x \<in> set seen then seen else seen @ [x])"

definition new_Set :: "string list \<Rightarrow> string list" where
  "new_Set xs = foldl set_add [] xs"

definition unique :: "element list \<Rightarrow> string list" where
  "unique elements = new_Set (concat (map members elements))"

text \<open>
  Modelled from the spec: \<^verbatim>\<open>free()\<close> of \<open>ReferenceNode\<close>, \<open>StaticFragmentNode\<close>,
  \<open>InterpolatedNode\<close>, \<open>CollectionIterationNode\<close> and \<open>DictionaryIterationNode\<close>, whose
  classes are not among the source files.  The spec gives every node's free variables as
  the de-duplicated union of its children's; a static fragment has no children, and of a
  reference only the root name is a variable (the free variables of \<^verbatim>\<open>a.b[1]\<close> are exactly
  \<^verbatim>\<open>["a"]\<close>), together with what its subscripts read.  The equations of the six classes
  of \<^verbatim>\<open>AST.ts\<close>, \<open>LiteralNode\<close> to \<open>PipeNode\<close>, are the source's.
\<close>

fun free :: "node \<Rightarrow> string list"
and free_components :: "bool \<Rightarrow> component list \<Rightarrow> element list" where
  "free (LiteralNode v) = []"
| "free (VariableNode name) = [name]"
| "free (UnaryNode operator inner) = free inner"
| "free (BinaryNode operator left right) = unique [Many (free left), Many (free right)]"
| "free (BindNode name parameters) = unique (One name # map (\<lambda>p. Many (free p)) parameters)"
| "free (PipeNode left right) = unique [Many (free left), Many (free right)]"
| "free (ReferenceNode components) = unique (free_components True components)"
| "free (StaticFragmentNode text) = []"
| "free (InterpolatedNode fragments) = unique (map (\<lambda>f. Many (free f)) fragments)"
| "free (CollectionIterationNode name source) = unique [Many (free source)]"
| "free (DictionaryIterationNode keyName valueName source) = unique [Many (free source)]"
| "free_components first [] = []"
| "free_components first (FieldComponent name # cs) =
     (if first then One name # free_components False cs else free_components False cs)"
| "free_components first (SubscriptComponent index # cs) =
     Many (free index) # free_components False cs"

subsection \<open>\<^verbatim>\<open>compile\<close>\<close>

text \<open>
  \<^verbatim>\<open>compile()\<close> of the six classes of \<^verbatim>\<open>AST.ts\<close>.  The text a class outside the source
  files compiles to is not known: \<open>absent\<close> stands for it.
\<close>

fun join :: "string \<Rightarrow> string list \<Rightarrow> string" where
  "join sep [] = []"
| "join sep [x] = x"
| "join sep (x # y # ys) = x @ sep @ join sep (y # ys)"

fun Node_compile :: "(node \<Rightarrow> string) \<Rightarrow> node \<Rightarrow> string" where
  "Node_compile absent (LiteralNode v) = (case v of None \<Rightarrow> ''undefined'' | Some s \<Rightarrow> s)"
| "Node_compile absent (VariableNode name) = name"
| "Node_compile absent (UnaryNode operator inner) =
     operator @ ''('' @ Node_compile absent inner @ '')''"
| "Node_compile absent (BinaryNode operator left right) =
     ''('' @ Node_compile absent left @ '')'' @ operator @ ''('' @ Node_compile absent right @ '')''"
| "Node_compile absent (BindNode name parameters) =
     name @ ''('' @ join '','' (map (Node_compile absent) parameters) @ '')''"
| "Node_compile absent (PipeNode left right) =
     ''('' @ Node_compile absent right @ '')('' @ Node_compile absent left @ '')''"
| "Node_compile absent other = absent other"

section \<open>Parser.ts\<close>

subsection \<open>The runtime's \<^verbatim>\<open>parseFloat\<close> and \<^verbatim>\<open>JSON.parse\<close>, on the labels the lexer makes\<close>

text \<open>\<^verbatim>\<open>parseFloat\<close> of a label of the number rule, a non-empty sequence of decimal digits.\<close>

definition digit_value :: "char \<Rightarrow> nat" where
  "digit_value c = of_char c - of_char CHR ''0''"

definition parseFloat :: "string \<Rightarrow> nat" where
  "parseFloat l = foldl (\<lambda>a c. 10 * a + digit_value c) 0 l"

text \<open>
  \<^verbatim>\<open>JSON.parse\<close> of a label of a string rule.  Such a label starts with its quote; a text
  that does not start with the double quote is no JSON string and raises.  Inside, the
  string ends at the first double quote that no backslash escapes, and nothing but
  white space may follow it; a control character raises.  (A \<^verbatim>\<open>\u\<close> escape cannot occur
  in a label: there a backslash is followed by a backslash or by the quote.  It is left
  out and raises here.)
\<close>

definition json_unescape :: "char \<Rightarrow> char option" where
  "json_unescape c =
     (if c = CHR 0x22 \<or> c = CHR 0x5C \<or> c = CHR ''/'' then Some c
      else if c = CHR ''b'' then Some (CHR 0x08)
      else if c = CHR ''f'' then Some (CHR 0x0C)
      else if c = CHR ''n'' then Some (CHR 0x0A)
      else if c = CHR ''r'' then Some (CHR 0x0D)
      else if c = CHR ''t'' then Some (CHR 0x09)
      else None)"

definition isJsonSpace :: "char \<Rightarrow> bool" where
  "isJsonSpace c = (c \<in> set [CHR 0x20, CHR 0x09, CHR 0x0A, CHR 0x0D])"

fun json_string_body :: "string \<Rightarrow> string \<Rightarrow> error + string" where
  "json_string_body acc [] = Inl NativeSyntaxError"
| "json_string_body acc (c # s) =
     (if c = CHR 0x22 then
        (if list_all isJsonSpace s then Inr acc else Inl NativeSyntaxError)
      else if c = CHR 0x5C then
        (case s of
           [] \<Rightarrow> Inl NativeSyntaxError
         | e # s' \<Rightarrow>
             (case json_unescape e of
                None \<Rightarrow> Inl NativeSyntaxError
              | Some d \<Rightarrow> json_string_body (acc @ [d]) s'))
      else if (of_char c :: nat) < 32 then Inl NativeSyntaxError
      else json_string_body (acc @ [c]) s)"

definition JSON_parse :: "string \<Rightarrow> error + string" where
  "JSON_parse l =
     (case l of
        [] \<Rightarrow> Inl NativeSyntaxError
      | c # s \<Rightarrow> if c = CHR 0x22 then json_string_body [] s else Inl NativeSyntaxError)"

subsection \<open>Results of the parser's methods\<close>

text \<open>
  A method of the parser returns a value and leaves the lexer in a new state, or throws.
  \<^verbatim>\<open>_parseValue\<close> can call \<^verbatim>\<open>_parseRoot\<close> without having advanced the lexer, so the
  recursion is not bounded by the input: the methods take a bound on the depth of the
  calls, and \<open>None\<close> says that the bound was reached.
\<close>

type_synonym 'a outcome = "(error + 'a \<times> lexer) option"

definition returns :: "'a \<Rightarrow> lexer \<Rightarrow> 'a outcome" where
  "returns a lx = Some (Inr (a, lx))"

definition throws :: "error \<Rightarrow> 'a outcome" where
  "throws e = Some (Inl e)"

definition and_then :: "'a outcome \<Rightarrow> ('a \<Rightarrow> lexer \<Rightarrow> 'b outcome) \<Rightarrow> 'b outcome" where
  "and_then r f =
     (case r of
        None \<Rightarrow> None
      | Some (Inl e) \<Rightarrow> Some (Inl e)
      | Some (Inr (a, lx)) \<Rightarrow> f a lx)"

text \<open>
  An outcome under a smaller bound is below the outcome under a larger one: it is the same
  outcome, or the smaller bound was reached.
\<close>

definition below :: "'a option \<Rightarrow> 'a option \<Rightarrow> bool" where
  "below a b = (a = None \<or> a = b)"

subsection \<open>The class \<^verbatim>\<open>Parser\<close>\<close>

definition BINARY_OPERATOR_PRECEDENCE_TABLE :: "(bool \<times> string list) list" where
  "BINARY_OPERATOR_PRECEDENCE_TABLE =
     [(False, [''**'']),
      (True, [''*'', ''/'', ''%'']),
      (True, [''+'', ''-'']),
      (True, [''<<'', ''>>'', ''>>>'']),
      (True, [''<'', ''<='', ''>'', ''>='', ''in'']),
      (True, [''=='', ''!='', ''==='', ''!==''])]"

text \<open>
  The constructor: the parser's state is its lexer (its \<^verbatim>\<open>input\<close> is the lexer's
  \<^verbatim>\<open>originalInput\<close>), advanced once; that \<^verbatim>\<open>next()\<close> can throw.
\<close>

definition new_Parser :: "string \<Rightarrow> error + lexer" where
  "new_Parser s =
     (case lexer_next (new_Lexer s) of
        Inl e \<Rightarrow> Inl e
      | Inr (t, lx) \<Rightarrow> Inr lx)"

definition parseStringLiteral :: "string \<Rightarrow> error + string" where
  "parseStringLiteral l = JSON_parse l"

fun parseReferenceComponents :: "nat \<Rightarrow> component list \<Rightarrow> lexer \<Rightarrow> node outcome"
and parseReference :: "nat \<Rightarrow> lexer \<Rightarrow> node outcome"
and parseValue :: "nat \<Rightarrow> lexer \<Rightarrow> node outcome"
and parseUnaryNode :: "nat \<Rightarrow> lexer \<Rightarrow> node outcome"
and parseBinaryNode :: "nat \<Rightarrow> nat \<Rightarrow> lexer \<Rightarrow> node outcome"
and parseBinaryLoop :: "nat \<Rightarrow> nat \<Rightarrow> string list \<Rightarrow> node \<Rightarrow> lexer \<Rightarrow> node outcome"
and parseRoot :: "nat \<Rightarrow> lexer \<Rightarrow> node outcome" where
  "parseReferenceComponents 0 components lx = None"
| "parseReferenceComponents (Suc n) components lx =
     (if token lx = T_dot then
        and_then (Some (lexer_expect [T_name] lx)) (\<lambda>l lx1.
          parseReferenceComponents n (components @ [FieldComponent l]) lx1)
      else if token lx = T_left_square then
        and_then (Some (lexer_next lx)) (\<lambda>t lx1.
        and_then (parseRoot n lx1) (\<lambda>index lx2.
        and_then (Some (lexer_expect [T_right_square] lx2)) (\<lambda>l lx3.
          parseReferenceComponents n (components @ [SubscriptComponent index]) lx3)))
      else returns (ReferenceNode components) lx)"
| "parseReference 0 lx = None"
| "parseReference (Suc n) lx =
     and_then (Some (lexer_expect [T_name] lx)) (\<lambda>l lx1.
       parseReferenceComponents n [FieldComponent l] lx1)"
| "parseValue 0 lx = None"
| "parseValue (Suc n) lx =
     (if token lx = T_undefined then
        and_then (Some (lexer_next lx)) (\<lambda>t lx1. returns (new_LiteralNode LV_undefined) lx1)
      else if token lx = T_true then
        and_then (Some (lexer_next lx)) (\<lambda>t lx1. returns (new_LiteralNode (LV_boolean True)) lx1)
      else if token lx = T_false then
        and_then (Some (lexer_next lx)) (\<lambda>t lx1. returns (new_LiteralNode (LV_boolean False)) lx1)
      else if token lx = T_number then
        and_then (Some (lexer_step lx)) (\<lambda>l lx1.
          returns (new_LiteralNode (LV_number (parseFloat l))) lx1)
      else if token lx = T_string then
        and_then (Some (lexer_step lx)) (\<lambda>l lx1.
          (case parseStringLiteral l of
             Inl e \<Rightarrow> throws e
           | Inr v \<Rightarrow> returns (new_LiteralNode (LV_string v)) lx1))
      else if token lx = T_left then
        and_then (parseRoot n lx) (\<lambda>node lx1.
        and_then (Some (lexer_expect [T_right] lx1)) (\<lambda>l lx2. returns node lx2))
      else parseReference n lx)"
| "parseUnaryNode 0 lx = None"
| "parseUnaryNode (Suc n) lx =
     (if token lx \<noteq> T_operator then parseValue n lx
      else
        (let operator = label lx in
         if operator \<in> set [''+'', ''-'', ''!''] then
           and_then (Some (lexer_next lx)) (\<lambda>t lx1.
           and_then (parseUnaryNode n lx1) (\<lambda>inner lx2.
             returns (UnaryNode operator inner) lx2))
         else throws (SyntaxError (originalInput lx))))"
| "parseBinaryNode 0 precedenceIndex lx = None"
| "parseBinaryNode (Suc n) precedenceIndex lx =
     (if precedenceIndex < length BINARY_OPERATOR_PRECEDENCE_TABLE then
        (case BINARY_OPERATOR_PRECEDENCE_TABLE ! precedenceIndex of
           (leftAssociative, operators) \<Rightarrow>
             if leftAssociative then
               and_then (parseBinaryNode n (precedenceIndex + 1) lx) (\<lambda>node lx1.
                 parseBinaryLoop n precedenceIndex operators node lx1)
             else
               and_then (parseBinaryNode n (precedenceIndex + 1) lx) (\<lambda>left lx1.
                 if \<not> (token lx1 \<in> set [T_operator, T_in]) \<or> \<not> (label lx1 \<in> set operators)
                 then returns left lx1
                 else
                   and_then (Some (lexer_step lx1)) (\<lambda>operator lx2.
                   and_then (parseBinaryNode n precedenceIndex lx2) (\<lambda>right lx3.
                     returns (BinaryNode operator left right) lx3))))
      else parseUnaryNode n lx)"
| "parseBinaryLoop 0 precedenceIndex operators node lx = None"
| "parseBinaryLoop (Suc n) precedenceIndex operators node lx =
     (if token lx \<in> set [T_operator, T_in] \<and> label lx \<in> set operators then
        and_then (Some (lexer_step lx)) (\<lambda>operator lx1.
        and_then (parseBinaryNode n (precedenceIndex + 1) lx1) (\<lambda>right lx2.
          parseBinaryLoop n precedenceIndex operators (BinaryNode operator node right) lx2))
      else returns node lx)"
| "parseRoot 0 lx = None"
| "parseRoot (Suc n) lx = parseBinaryNode n 0 lx"

text \<open>The method \<^verbatim>\<open>parse\<close>.\<close>

definition Parser_parse :: "nat \<Rightarrow> lexer \<Rightarrow> node outcome" where
  "Parser_parse n lx =
     and_then (parseRoot n lx) (\<lambda>node lx1.
       if token lx1 = T_end then returns node lx1
       else throws (SyntaxError (originalInput lx1)))"




text \<open>
  What a caller sees of a method's outcome: the value or the error.  The function
  \<^verbatim>\<open>parse(input)\<close> constructs a parser and calls its \<^verbatim>\<open>parse\<close>.
\<close>

definition result :: "'a outcome \<Rightarrow> (error + 'a) option" where
  "result r = map_option (map_sum id fst) r"

definition parse :: "nat \<Rightarrow> string \<Rightarrow> (error + node) option" where
  "parse n s =
     (case new_Parser s of
        Inl e \<Rightarrow> Some (Inl e)
      | Inr lx \<Rightarrow> result (Parser_parse n lx))"

subsection \<open>\<^verbatim>\<open>interpolate\<close>\<close>

text \<open>
  \<^verbatim>\<open>input[i]\<close> as it is appended to a string: past the end of the input it is
  \<^verbatim>\<open>undefined\<close>, whose text is appended.
\<close>

definition index_text :: "string \<Rightarrow> nat \<Rightarrow> string" where
  "index_text s i = (if i < length s then [s ! i] else ''undefined'')"

text \<open>
  The inner loop (the function called in place): \<open>i\<close> and \<open>text\<close> are the loop's
  variables; it returns the parsed node and the index of the second closing brace.
\<close>

function scanExpression :: "nat \<Rightarrow> string \<Rightarrow> nat \<Rightarrow> string \<Rightarrow> (error + node \<times> nat) option" where
  "scanExpression n s i text =
     (if i < length s then
        (if s ! i \<noteq> CHR ''}'' then scanExpression n s (i + 1) (text @ [s ! i])
         else if i + 1 < length s \<and> s ! (i + 1) = CHR ''}'' then
           (case parse n text of
              None \<Rightarrow> None
            | Some (Inl e) \<Rightarrow> Some (Inl e)
            | Some (Inr node) \<Rightarrow> Some (Inr (node, i + 1)))
         else scanExpression n s (i + 2) (text @ ''}'' @ index_text s (i + 1)))
      else Some (Inl (SyntaxError s)))"
  by pat_completeness auto
termination
  by (relation "measure (\<lambda>(n, s, i, text). length s - i)") auto

declare scanExpression.simps [simp del]

lemma scanExpression_index:
  "scanExpression n s i t = Some (Inr (node, j)) \<Longrightarrow> i < j"
proof (induction n s i t rule: scanExpression.induct)
  case (1 n s i t)
  show ?case
  proof (cases "i < length s")
    case False
    with "1.prems" show ?thesis by (simp add: scanExpression.simps)
  next
    case inside: True
    show ?thesis
    proof (cases "s ! i \<noteq> CHR ''}''")
      case True
      with inside "1.prems" have "scanExpression n s (i + 1) (t @ [s ! i]) = Some (Inr (node, j))"
        by (simp add: scanExpression.simps [of n s i])
      from "1.IH"(1) [OF inside True this] show ?thesis by simp
    next
      case brace: False
      show ?thesis
      proof (cases "i + 1 < length s \<and> s ! (i + 1) = CHR ''}''")
        case True
        with inside brace "1.prems" show ?thesis
          by (auto simp: scanExpression.simps [of n s i] split: option.splits sum.splits)
      next
        case False
        with inside brace "1.prems"
        have "scanExpression n s (i + 2) (t @ ''}'' @ index_text s (i + 1)) = Some (Inr (node, j))"
          by (auto simp: scanExpression.simps [of n s i] split: if_splits)
        from "1.IH"(2) [OF inside brace False this] show ?thesis by simp
      qed
    qed
  qed
qed

function interpolateLoop :: "nat \<Rightarrow> string \<Rightarrow> nat \<Rightarrow> string \<Rightarrow> node list \<Rightarrow> (error + node) option" where
  "interpolateLoop n s i text fragments =
     (if i < length s then
        (if s ! i \<noteq> CHR ''{'' then interpolateLoop n s (i + 1) (text @ [s ! i]) fragments
         else if i + 1 < length s \<and> s ! (i + 1) = CHR ''{'' then
           (case scanExpression n s (i + 2) [] of
              None \<Rightarrow> None
            | Some (Inl e) \<Rightarrow> Some (Inl e)
            | Some (Inr (node, j)) \<Rightarrow>
                interpolateLoop n s (j + 1) [] (fragments @ [StaticFragmentNode text, node]))
         else interpolateLoop n s (i + 2) (text @ ''{'' @ index_text s (i + 1)) fragments)
      else Some (Inr (InterpolatedNode (fragments @ [StaticFragmentNode text]))))"
  by pat_completeness auto
termination
  by (relation "measure (\<lambda>(n, s, i, text, fragments). length s - i)")
     (auto dest!: scanExpression_index)

declare interpolateLoop.simps [simp del]

definition interpolate :: "nat \<Rightarrow> string \<Rightarrow> (error + node) option" where
  "interpolate n s = interpolateLoop n s 0 [] []"

subsection \<open>The compiled expressions\<close>

text \<open>
  \<^verbatim>\<open>compile(expression)\<close> hands the text \<^verbatim>\<open>return(...);\<close> around \<^verbatim>\<open>expression.compile()\<close> to
  the runtime's \<^verbatim>\<open>Function\<close> constructor, and the function made is called with the
  context as \<^verbatim>\<open>this\<close>.  The runtime is not the repository's: its values are modelled as
  far as the theorems need them, and what it does with a text is a parameter (\<open>run\<close>)
  except where the text is a literal or integer arithmetic on literals, whose values are
  computed here (\<open>known_value\<close>).

  A number is a rational or one of the three non-finite doubles.  Every double but
  minus zero is one of these; minus zero has no representation, and \<open>known_value\<close> leaves
  to the runtime every operation that would make it.
\<close>

datatype jsnum = Finite rat | NaN | PosInfinity | NegInfinity

datatype jsval =
    JS_undefined
  | JS_null
  | JS_boolean bool
  | JS_number jsnum
  | JS_string string
  | JS_array "jsval list"
  | JS_object "(string \<times> jsval) list"

type_synonym dictionary = "(string \<times> jsval) list"

text \<open>
  What the model takes from the runtime: the text a node class outside the source files
  compiles to; the outcome of evaluating an expression text with a context as \<^verbatim>\<open>this\<close>
  (\<open>Inl\<close> holds the value thrown, \<open>Inr\<close> the value returned); the number a string
  converts to; the string a number converts to.
\<close>

record host =
  absentCompile :: "node \<Rightarrow> string"
  run :: "string \<Rightarrow> dictionary \<Rightarrow> jsval + jsval"
  StringToNumber :: "string \<Rightarrow> jsnum"
  NumberToString :: "jsnum \<Rightarrow> string"

text \<open>The integers that doubles hold exactly, and a value read as one of them.\<close>

definition safeInteger :: "int \<Rightarrow> bool" where
  "safeInteger k = (- (2 ^ 53) < k \<and> k < 2 ^ 53)"

definition number :: "int \<Rightarrow> jsval option" where
  "number k = (if safeInteger k then Some (JS_number (Finite (of_int k))) else None)"

definition integer_of :: "jsval \<Rightarrow> int option" where
  "integer_of v =
     (case v of
        JS_number (Finite q) \<Rightarrow>
          if of_int \<lfloor>q\<rfloor> = q \<and> safeInteger \<lfloor>q\<rfloor> then Some \<lfloor>q\<rfloor> else None
      | _ \<Rightarrow> None)"

definition ToBoolean :: "jsval \<Rightarrow> bool" where
  "ToBoolean v =
     (case v of
        JS_undefined \<Rightarrow> False
      | JS_null \<Rightarrow> False
      | JS_boolean b \<Rightarrow> b
      | JS_number x \<Rightarrow> (case x of Finite q \<Rightarrow> q \<noteq> 0 | NaN \<Rightarrow> False | _ \<Rightarrow> True)
      | JS_string s \<Rightarrow> s \<noteq> []
      | _ \<Rightarrow> True)"

text \<open>
  The value of the text a \<open>LiteralNode\<close> compiles to: \<^verbatim>\<open>undefined\<close>, \<^verbatim>\<open>true\<close>, \<^verbatim>\<open>false\<close>, a
  decimal integer without a leading zero, or a JSON string.
\<close>

definition literal_text :: "string \<Rightarrow> jsval option" where
  "literal_text s =
     (if s = ''undefined'' then Some JS_undefined
      else if s = ''true'' then Some (JS_boolean True)
      else if s = ''false'' then Some (JS_boolean False)
      else if s \<noteq> [] \<and> list_all isDigit s \<and> (s = ''0'' \<or> hd s \<noteq> CHR ''0'') then
        number (int (parseFloat s))
      else (case JSON_parse s of Inr v \<Rightarrow> Some (JS_string v) | Inl e \<Rightarrow> None))"

definition unary_operator :: "string \<Rightarrow> jsval \<Rightarrow> jsval option" where
  "unary_operator operator v =
     (if operator = ''!'' then Some (JS_boolean (\<not> ToBoolean v))
      else if operator = ''+'' then
        (case integer_of v of Some k \<Rightarrow> number k | None \<Rightarrow> None)
      else if operator = ''-'' then
        (case integer_of v of Some k \<Rightarrow> if k = 0 then None else number (- k) | None \<Rightarrow> None)
      else None)"

definition binary_operator :: "string \<Rightarrow> jsval \<Rightarrow> jsval \<Rightarrow> jsval option" where
  "binary_operator operator a b =
     (case (integer_of a, integer_of b) of
        (Some x, Some y) \<Rightarrow>
          if operator = ''+'' then number (x + y)
          else if operator = ''-'' then number (x - y)
          else if operator = ''*'' then
            (if x * y = 0 \<and> (x < 0 \<or> y < 0) then None else number (x * y))
          else if operator = ''**'' then
            (if 0 \<le> y then number (x ^ nat y) else None)
          else None
      | _ \<Rightarrow> None)"

text \<open>
  \<^verbatim>\<open>(left)&&(right)\<close>, \<^verbatim>\<open>(left)||(right)\<close> and \<^verbatim>\<open>(left)??(right)\<close> give the left value
  without evaluating the right text when the left value decides.
\<close>

definition decides :: "string \<Rightarrow> jsval \<Rightarrow> bool" where
  "decides operator a =
     (if operator = ''&&'' then \<not> ToBoolean a
      else if operator = ''||'' then ToBoolean a
      else a \<noteq> JS_undefined \<and> a \<noteq> JS_null)"

fun known_value :: "node \<Rightarrow> jsval option" where
  "known_value (LiteralNode v) = (case v of None \<Rightarrow> Some JS_undefined | Some s \<Rightarrow> literal_text s)"
| "known_value (UnaryNode operator inner) =
     (case known_value inner of None \<Rightarrow> None | Some v \<Rightarrow> unary_operator operator v)"
| "known_value (BinaryNode operator left right) =
     (case known_value left of
        None \<Rightarrow> None
      | Some a \<Rightarrow>
          if operator \<in> set [''&&'', ''||'', ''??''] then
            (if decides operator a then Some a else known_value right)
          else
            (case known_value right of None \<Rightarrow> None | Some b \<Rightarrow> binary_operator operator a b))"
| "known_value other = None"

definition compile :: "host \<Rightarrow> node \<Rightarrow> dictionary \<Rightarrow> jsval + jsval" where
  "compile h expression this =
     (case known_value expression of
        Some v \<Rightarrow> Inr v
      | None \<Rightarrow> run h (Node_compile (absentCompile h) expression) this)"

text \<open>
  The safe forms: \<^verbatim>\<open>try { return C(...); } catch (e) { console.error(e); return D; }\<close>.
  The console is the list of what was reported.  The conversions are the runtime's, for
  the values above (none of them throws on such a value): \<^verbatim>\<open>!!\<close> is \<open>ToBoolean\<close>,
  \<^verbatim>\<open>~~\<close> is \<open>ToInt32\<close> after \<open>ToNumber\<close>, unary \<^verbatim>\<open>+\<close> is \<open>ToNumber\<close>, \<^verbatim>\<open>String\<close> is
  \<open>ToString\<close>, and \<^verbatim>\<open>[].concat\<close> spreads an array and appends any other value.
\<close>

type_synonym console = "jsval list"






definition attempt :: "(jsval \<Rightarrow> jsval) \<Rightarrow> jsval \<Rightarrow> jsval + jsval \<Rightarrow> console \<Rightarrow> jsval \<times> console" where
  "attempt convert fallback outcome console =
     (case outcome of
        Inr v \<Rightarrow> (convert v, console)
      | Inl e \<Rightarrow> (fallback, console @ [e]))"

definition compileSafe :: "host \<Rightarrow> node \<Rightarrow> dictionary \<Rightarrow> console \<Rightarrow> jsval \<times> console" where
  "compileSafe h expression this console =
     attempt (\<lambda>v. v) JS_undefined (compile h expression this) console"







section \<open>Notions used in the statements\<close>

text \<open>
  The spec's de-duplication, in its own words: the order of first occurrence is kept and
  later duplicates are removed.
\<close>

fun first_occurrences :: "string list \<Rightarrow> string list" where
  "first_occurrences [] = []"
| "first_occurrences (x # xs) = x # first_occurrences (filter (\<lambda>y. y \<noteq> x) xs)"

text \<open>
  The tokens of the rules that match a remaining input, in the order of the rules; the
  rules are mutually exclusive on an input when this list has at most one member.
\<close>

definition matching :: "string \<Rightarrow> token list" where
  "matching s = map fst (filter (\<lambda>(t, p). p s \<noteq> None) rules)"

definition keyword_texts :: "string list" where
  "keyword_texts = [''undefined'', ''true'', ''false'', ''in'']"

text \<open>Whether a node holds a \<open>PipeNode\<close> or a \<open>BindNode\<close>, at any depth.\<close>

fun has_Pipe_or_Bind :: "node \<Rightarrow> bool"
and component_has_Pipe_or_Bind :: "component \<Rightarrow> bool" where
  "has_Pipe_or_Bind (LiteralNode v) = False"
| "has_Pipe_or_Bind (VariableNode name) = False"
| "has_Pipe_or_Bind (UnaryNode operator inner) = has_Pipe_or_Bind inner"
| "has_Pipe_or_Bind (BinaryNode operator left right) =
     (has_Pipe_or_Bind left \<or> has_Pipe_or_Bind right)"
| "has_Pipe_or_Bind (BindNode name parameters) = True"
| "has_Pipe_or_Bind (PipeNode left right) = True"
| "has_Pipe_or_Bind (ReferenceNode components) = list_ex component_has_Pipe_or_Bind components"
| "has_Pipe_or_Bind (StaticFragmentNode t) = False"
| "has_Pipe_or_Bind (InterpolatedNode fragments) = list_ex has_Pipe_or_Bind fragments"
| "has_Pipe_or_Bind (CollectionIterationNode name source) = has_Pipe_or_Bind source"
| "has_Pipe_or_Bind (DictionaryIterationNode keyName valueName source) = has_Pipe_or_Bind source"
| "component_has_Pipe_or_Bind (FieldComponent name) = False"
| "component_has_Pipe_or_Bind (SubscriptComponent index) = has_Pipe_or_Bind index"

section \<open>The lexer's rules\<close>

lemma match_first_Some:
  "match_first rs lx = Some lx' \<Longrightarrow>
   \<exists>t p l. (t, p) \<in> set rs \<and> p (input lx) = Some l \<and>
     lx' = lx\<lparr>input := drop (length l) (input lx), label := l, token := t\<rparr>"
proof (induction rs)
  case Nil
  then show ?case by simp
next
  case (Cons r rs)
  obtain t p where r: "r = (t, p)" by (cases r)
  show ?case
  proof (cases "p (input lx)")
    case None
    with Cons.prems r have "match_first rs lx = Some lx'"
      by (simp add: lexer_match_def lexer_read_def)
    from Cons.IH [OF this] show ?thesis by auto
  next
    case (Some l)
    with Cons.prems r
    have "lx' = lx\<lparr>input := drop (length l) (input lx), label := l, token := t\<rparr>"
      by (simp add: lexer_match_def lexer_read_def)
    with Some r show ?thesis by auto
  qed
qed

lemma name_rule:
  assumes "match_first rules lx = Some lx'" and "token lx' = T_name"
  shows "pat_text ''undefined'' (input lx) = None \<and> pat_text ''true'' (input lx) = None \<and>
         pat_text ''false'' (input lx) = None \<and> pat_in (input lx) = None \<and>
         pat_name (input lx) = Some (label lx')"
  using assms
  by (auto simp: rules_def lexer_match_def lexer_read_def split: option.splits)

lemma alternative_at_member:
  "alternative_at alts start s = Some l \<Longrightarrow> l \<in> snd ` set alts"
  by (induction alts) (auto split: if_splits)

lemma exec_from_member:
  "exec_from alts start s = Some l \<Longrightarrow> l \<in> snd ` set alts"
  by (induction s arbitrary: start) (auto dest: alternative_at_member split: option.splits)

lemma pat_alternatives_nonempty:
  assumes "[] \<notin> snd ` set alts"
  shows "pat_alternatives alts s \<noteq> Some []"
proof
  assume "pat_alternatives alts s = Some []"
  then have "[] \<in> snd ` set alts"
    unfolding pat_alternatives_def by (rule exec_from_member)
  with assms show False by simp
qed

lemma operators_nonempty:
  "pat_alternatives operators3 s \<noteq> Some []"
  "pat_alternatives operators2 s \<noteq> Some []"
  "pat_alternatives operators1 s \<noteq> Some []"
  by (rule pat_alternatives_nonempty, simp add: operators3_def operators2_def operators1_def)+

lemma rule_label_nonempty:
  assumes "(t, p) \<in> set rules" and "p s = Some l"
  shows "l \<noteq> []"
  using assms operators_nonempty [of s] unfolding rules_def
  by (auto simp: pat_text_def pat_in_def pat_name_def pat_number_def pat_string_def Let_def
      split: if_splits list.splits)

lemma match_first_shrinks:
  assumes "match_first rules lx = Some lx'" and "input lx \<noteq> []"
  shows "length (input lx') < length (input lx)" "originalInput lx' = originalInput lx"
    "label lx' \<noteq> []"
proof -
  from match_first_Some [OF assms(1)] obtain t p l where
    r: "(t, p) \<in> set rules" "p (input lx) = Some l" and
    lx': "lx' = lx\<lparr>input := drop (length l) (input lx), label := l, token := t\<rparr>"
    by blast
  from rule_label_nonempty [OF r] have "l \<noteq> []" .
  with lx' assms(2) show "length (input lx') < length (input lx)"
    "originalInput lx' = originalInput lx" "label lx' \<noteq> []"
    by (auto simp: neq_Nil_conv)
qed

lemma lexer_next_result:
  "lexer_next lx = Inr (t, lx') \<Longrightarrow>
   t = token lx' \<and> originalInput lx' = originalInput lx \<and>
   (input lx = [] \<and> lx' = lx\<lparr>label := [], token := T_end\<rparr> \<or>
    length (input lx') < length (input lx))"
proof (induction lx rule: lexer_next.induct)
  case (1 lx)
  show ?case
  proof (cases "input lx = []")
    case True
    with "1.prems" show ?thesis by (auto simp: lexer_next.simps [of lx])
  next
    case False
    show ?thesis
    proof (cases "pat_space (input lx)")
      case (Some l)
      let ?lx1 = "lx\<lparr>input := drop (length l) (input lx)\<rparr>"
      from Some have r: "lexer_read pat_space lx = (Some l, ?lx1)" by (simp add: lexer_read_def)
      with False "1.prems" have "lexer_next ?lx1 = Inr (t, lx')"
        by (simp add: lexer_next.simps [of lx])
      from "1.IH" [OF False r [symmetric] refl this] lexer_read_space_shorter [OF r]
      show ?thesis by auto
    next
      case None
      then have r: "lexer_read pat_space lx = (None, lx)" by (simp add: lexer_read_def)
      with False have "lexer_next lx =
          (case match_first rules lx of
             Some lx'' \<Rightarrow> Inr (token lx'', lx'')
           | None \<Rightarrow> Inl (SyntaxError (originalInput lx)))"
        by (subst lexer_next.simps) simp
      with "1.prems" have m: "match_first rules lx = Some lx'" and e: "t = token lx'"
        by (cases "match_first rules lx"; simp)+
      from match_first_shrinks [OF m False] e show ?thesis by simp
    qed
  qed
qed

text \<open>
  The tokens a lexer yields from a state on: its current token and label, then those of
  every further \<^verbatim>\<open>next()\<close>, up to the end token or to the call that throws.  The token
  stream of an input starts at the first token (the state's \<open>begin\<close> is left out).
\<close>

function tokenize :: "lexer \<Rightarrow> (token \<times> string) list" where
  "tokenize lx =
     (token lx, label lx) #
     (if token lx = T_end then []
      else (case lexer_next lx of Inl e \<Rightarrow> [] | Inr (t, lx') \<Rightarrow> tokenize lx'))"
  by pat_completeness auto
termination
proof (relation "measure (\<lambda>lx. 2 * length (input lx) + (if token lx = T_end then 0 else 1))")
  show "wf (measure (\<lambda>lx. 2 * length (input lx) + (if token lx = T_end then 0 else 1)))"
    by simp
next
  fix lx :: lexer and r t lx'
  assume "token lx \<noteq> T_end" and "lexer_next lx = Inr r" and "(t, lx') = r"
  then have "lexer_next lx = Inr (t, lx')" by simp
  from lexer_next_result [OF this] \<open>token lx \<noteq> T_end\<close>
  show "(lx', lx) \<in> measure (\<lambda>lx. 2 * length (input lx) + (if token lx = T_end then 0 else 1))"
    by auto
qed

declare tokenize.simps [simp del]

definition token_stream :: "string \<Rightarrow> (token \<times> string) list" where
  "token_stream s =
     (case lexer_next (new_Lexer s) of Inl e \<Rightarrow> [] | Inr (t, lx) \<Rightarrow> tokenize lx)"

lemma pat_name_prefix: "pat_name s = Some l \<Longrightarrow> take (length l) s = l"
  by (auto simp: pat_name_def split: list.splits if_splits)
     (metis takeWhile_eq_take)

lemma name_not_keyword:
  assumes "pat_name s = Some l"
    and "pat_text ''undefined'' s = None" "pat_text ''true'' s = None"
    "pat_text ''false'' s = None" "pat_in s = None"
  shows "l \<notin> set keyword_texts"
proof
  assume "l \<in> set keyword_texts"
  then consider "l = ''undefined''" | "l = ''true''" | "l = ''false''" | "l = ''in''"
    by (auto simp: keyword_texts_def)
  then show False
  proof cases
    case 1
    with pat_name_prefix [OF assms(1)] assms(2) show False by (simp add: pat_text_def)
  next
    case 2
    with pat_name_prefix [OF assms(1)] assms(3) show False by (simp add: pat_text_def)
  next
    case 3
    with pat_name_prefix [OF assms(1)] assms(4) show False by (simp add: pat_text_def)
  next
    case 4
    with assms(1) obtain cs where s: "s = CHR ''i'' # cs" and tw: "takeWhile isWord cs = ''n''"
      by (auto simp: pat_name_def split: list.splits if_splits)
    from tw obtain r where cs: "cs = CHR ''n'' # r" and r: "takeWhile isWord r = []"
      by (cases cs) (auto split: if_splits)
    from r have "r = [] \<or> \<not> isWord (hd r)" by (cases r) (auto split: if_splits)
    with s cs assms(5) show False by (auto simp: pat_in_def split: list.splits)
  qed
qed

lemma lexer_next_name:
  "lexer_next lx = Inr (T_name, lx') \<Longrightarrow> label lx' \<notin> set keyword_texts"
proof (induction lx rule: lexer_next.induct)
  case (1 lx)
  show ?case
  proof (cases "input lx = []")
    case True
    with "1.prems" show ?thesis by (simp add: lexer_next.simps [of lx])
  next
    case False
    show ?thesis
    proof (cases "pat_space (input lx)")
      case (Some l)
      let ?lx1 = "lx\<lparr>input := drop (length l) (input lx)\<rparr>"
      from Some have r: "lexer_read pat_space lx = (Some l, ?lx1)" by (simp add: lexer_read_def)
      with False "1.prems" have "lexer_next ?lx1 = Inr (T_name, lx')"
        by (simp add: lexer_next.simps [of lx])
      from "1.IH" [OF False r [symmetric] refl this] show ?thesis .
    next
      case None
      then have r: "lexer_read pat_space lx = (None, lx)" by (simp add: lexer_read_def)
      with False have "lexer_next lx =
          (case match_first rules lx of
             Some lx'' \<Rightarrow> Inr (token lx'', lx'')
           | None \<Rightarrow> Inl (SyntaxError (originalInput lx)))"
        by (subst lexer_next.simps) simp
      with "1.prems" have m: "match_first rules lx = Some lx'" and e: "token lx' = T_name"
        by (cases "match_first rules lx"; simp)+
      from name_rule [OF m e] show ?thesis by (intro name_not_keyword) auto
    qed
  qed
qed

lemma match_first_filter:
  "match_first rs lx = Some lx' \<Longrightarrow> token lx' = hd (map fst (filter (\<lambda>(t, p). p (input lx) \<noteq> None) rs))"
proof (induction rs)
  case Nil
  then show ?case by simp
next
  case (Cons r rs)
  obtain t p where r: "r = (t, p)" by (cases r)
  show ?case
  proof (cases "p (input lx)")
    case None
    with Cons r show ?thesis by (simp add: lexer_match_def lexer_read_def)
  next
    case (Some l)
    with Cons.prems r show ?thesis by (auto simp: lexer_match_def lexer_read_def)
  qed
qed

lemma lexer_next_first_match:
  assumes "lexer_next lx = Inr (t, lx')" and "input lx \<noteq> []" and "\<not> isSpace (hd (input lx))"
  shows "t = hd (matching (input lx))"
proof -
  from assms(2,3) have "pat_space (input lx) = None"
    by (cases "input lx") (auto simp: pat_space_def)
  then have r: "lexer_read pat_space lx = (None, lx)" by (simp add: lexer_read_def)
  with assms(2) have "lexer_next lx =
          (case match_first rules lx of
             Some lx'' \<Rightarrow> Inr (token lx'', lx'')
           | None \<Rightarrow> Inl (SyntaxError (originalInput lx)))"
    by (subst lexer_next.simps) simp
  with assms(1) have m: "match_first rules lx = Some lx'" and e: "t = token lx'"
    by (cases "match_first rules lx"; simp)+
  from match_first_filter [OF m] e show ?thesis by (simp add: matching_def)
qed




text \<open>
  From one state of a lexer to a later one, the tokens passed were not pipes: the tokens
  from the first state on are some tokens without a pipe, followed by the tokens from the
  second state on.  An outcome is good when a node it returns holds no \<open>PipeNode\<close> and no
  \<open>BindNode\<close> and the lexer passed no pipe.
\<close>

definition passes :: "lexer \<Rightarrow> lexer \<Rightarrow> bool" where
  "passes lx lx' = (\<exists>ts. tokenize lx = ts @ tokenize lx' \<and> T_pipe \<notin> fst ` set ts)"

definition good :: "lexer \<Rightarrow> node outcome \<Rightarrow> bool" where
  "good lx r =
     (case r of
        Some (Inr (node, lx')) \<Rightarrow> \<not> has_Pipe_or_Bind node \<and> passes lx lx'
      | _ \<Rightarrow> True)"

section \<open>The bound on the depth of the calls\<close>



lemma below_refl [simp]: "below a a" by (simp add: below_def)
lemma below_None [simp]: "below None a" by (simp add: below_def)
lemma below_Some: "below a b \<Longrightarrow> a = Some x \<Longrightarrow> b = Some x" by (auto simp: below_def)

lemma and_then_below:
  "below r r' \<Longrightarrow> (\<And>a lx. below (f a lx) (g a lx)) \<Longrightarrow> below (and_then r f) (and_then r' g)"
  by (auto simp: below_def and_then_def split: option.splits sum.splits)

lemma if_below: "(c \<Longrightarrow> below a a') \<Longrightarrow> (\<not> c \<Longrightarrow> below b b') \<Longrightarrow> below (if c then a else b) (if c then a' else b')"
  by simp

lemma parse_methods_step:
  assumes IH:
    "\<And>cs lx. below (parseReferenceComponents n cs lx) (parseReferenceComponents m cs lx)"
    "\<And>lx. below (parseReference n lx) (parseReference m lx)"
    "\<And>lx. below (parseValue n lx) (parseValue m lx)"
    "\<And>lx. below (parseUnaryNode n lx) (parseUnaryNode m lx)"
    "\<And>i lx. below (parseBinaryNode n i lx) (parseBinaryNode m i lx)"
    "\<And>i ops node lx. below (parseBinaryLoop n i ops node lx) (parseBinaryLoop m i ops node lx)"
    "\<And>lx. below (parseRoot n lx) (parseRoot m lx)"
  shows
    "below (parseReferenceComponents (Suc n) cs lx) (parseReferenceComponents (Suc m) cs lx)"
    "below (parseReference (Suc n) lx) (parseReference (Suc m) lx)"
    "below (parseValue (Suc n) lx) (parseValue (Suc m) lx)"
    "below (parseUnaryNode (Suc n) lx) (parseUnaryNode (Suc m) lx)"
    "below (parseBinaryNode (Suc n) i lx) (parseBinaryNode (Suc m) i lx)"
    "below (parseBinaryLoop (Suc n) i ops node lx) (parseBinaryLoop (Suc m) i ops node lx)"
    "below (parseRoot (Suc n) lx) (parseRoot (Suc m) lx)"
proof -
  show "below (parseReferenceComponents (Suc n) cs lx) (parseReferenceComponents (Suc m) cs lx)"
    unfolding parseReferenceComponents.simps(2) by (intro if_below and_then_below IH below_refl)
  show "below (parseReference (Suc n) lx) (parseReference (Suc m) lx)"
    unfolding parseReference.simps(2) by (intro if_below and_then_below IH below_refl)
  show "below (parseValue (Suc n) lx) (parseValue (Suc m) lx)"
    unfolding parseValue.simps(2) by (intro if_below and_then_below IH below_refl)
  show "below (parseUnaryNode (Suc n) lx) (parseUnaryNode (Suc m) lx)"
    unfolding parseUnaryNode.simps(2) Let_def by (intro if_below and_then_below IH below_refl)
  show "below (parseBinaryNode (Suc n) i lx) (parseBinaryNode (Suc m) i lx)"
    unfolding parseBinaryNode.simps(2)
    by (cases "BINARY_OPERATOR_PRECEDENCE_TABLE ! i")
       (auto intro!: if_below and_then_below IH below_refl)
  show "below (parseBinaryLoop (Suc n) i ops node lx) (parseBinaryLoop (Suc m) i ops node lx)"
    unfolding parseBinaryLoop.simps(2) by (intro if_below and_then_below IH below_refl)
  show "below (parseRoot (Suc n) lx) (parseRoot (Suc m) lx)"
    unfolding parseRoot.simps(2) by (intro IH)
qed

lemma parse_methods_mono:
  "n \<le> m \<Longrightarrow>
   (\<forall>cs lx. below (parseReferenceComponents n cs lx) (parseReferenceComponents m cs lx)) \<and>
   (\<forall>lx. below (parseReference n lx) (parseReference m lx)) \<and>
   (\<forall>lx. below (parseValue n lx) (parseValue m lx)) \<and>
   (\<forall>lx. below (parseUnaryNode n lx) (parseUnaryNode m lx)) \<and>
   (\<forall>i lx. below (parseBinaryNode n i lx) (parseBinaryNode m i lx)) \<and>
   (\<forall>i ops node lx. below (parseBinaryLoop n i ops node lx) (parseBinaryLoop m i ops node lx)) \<and>
   (\<forall>lx. below (parseRoot n lx) (parseRoot m lx))"
proof (induction n arbitrary: m)
  case 0
  show ?case by simp
next
  case (Suc n)
  then obtain m' where m: "m = Suc m'" and le: "n \<le> m'" by (cases m) auto
  from Suc.IH [OF le] show ?case unfolding m
    by (intro conjI allI parse_methods_step) blast+
qed

lemma Parser_parse_mono: "n \<le> m \<Longrightarrow> below (Parser_parse n lx) (Parser_parse m lx)"
  unfolding Parser_parse_def using parse_methods_mono [of n m]
  by (intro and_then_below) auto

lemma result_below: "below a b \<Longrightarrow> below (result a) (result b)"
  by (auto simp: below_def result_def)

lemma parse_mono: "n \<le> m \<Longrightarrow> below (parse n s) (parse m s)"
  by (auto simp: parse_def intro: result_below Parser_parse_mono split: sum.splits)

lemma parse_more: "parse n s = Some r \<Longrightarrow> parse (n + k) s = Some r"
  using parse_mono [of n "n + k" s] by (auto dest: below_Some)

lemma scanExpression_mono:
  "n \<le> m \<Longrightarrow> below (scanExpression n s i t) (scanExpression m s i t)"
proof (induction n s i t rule: scanExpression.induct)
  case (1 n s i t)
  show ?case
  proof (cases "i < length s")
    case False
    then show ?thesis by (simp add: scanExpression.simps [of _ s i])
  next
    case inside: True
    show ?thesis
    proof (cases "s ! i \<noteq> CHR ''}''")
      case True
      from "1.IH"(1) [OF inside True "1.prems"] inside True show ?thesis
        by (simp add: scanExpression.simps [of _ s i])
    next
      case brace: False
      show ?thesis
      proof (cases "i + 1 < length s \<and> s ! (i + 1) = CHR ''}''")
        case True
        show ?thesis
        proof (cases "parse n t")
          case None
          with inside brace True show ?thesis by (simp add: scanExpression.simps [of n s i])
        next
          case (Some r)
          with parse_mono [OF "1.prems", of t] have "parse m t = Some r" by (auto simp: below_def)
          with Some inside brace True show ?thesis by (simp add: scanExpression.simps [of _ s i])
        qed
      next
        case False
        from "1.IH"(2) [OF inside brace False "1.prems"] inside brace False show ?thesis
          by (auto simp: scanExpression.simps [of _ s i])
      qed
    qed
  qed
qed

lemma interpolateLoop_mono:
  "n \<le> m \<Longrightarrow> below (interpolateLoop n s i t fs) (interpolateLoop m s i t fs)"
proof (induction n s i t fs rule: interpolateLoop.induct)
  case (1 n s i t fs)
  show ?case
  proof (cases "i < length s")
    case False
    then show ?thesis by (simp add: interpolateLoop.simps [of _ s i])
  next
    case inside: True
    show ?thesis
    proof (cases "s ! i \<noteq> CHR ''{''")
      case True
      from "1.IH"(1) [OF inside True "1.prems"] inside True show ?thesis
        by (simp add: interpolateLoop.simps [of _ s i])
    next
      case brace: False
      show ?thesis
      proof (cases "i + 1 < length s \<and> s ! (i + 1) = CHR ''{''")
        case True
        show ?thesis
        proof (cases "scanExpression n s (i + 2) []")
          case None
          with inside brace True show ?thesis
            by (simp add: interpolateLoop.simps [of n s i])
        next
          case (Some r)
          with scanExpression_mono [OF "1.prems", of s "i + 2" "[]"]
          have m: "scanExpression m s (i + 2) [] = Some r" by (auto simp: below_def)
          show ?thesis
          proof (cases r)
            case (Inl e)
            with inside brace True Some m show ?thesis
              by (simp add: interpolateLoop.simps [of _ s i])
          next
            case (Inr p)
            obtain node j where p: "p = (node, j)" by (cases p)
            from "1.IH"(2) [OF inside brace True Some Inr p [symmetric] "1.prems"]
              inside brace True Some m Inr p
            show ?thesis
              by (simp add: interpolateLoop.simps [of _ s i])
          qed
        qed
      next
        case False
        from "1.IH"(3) [OF inside brace False "1.prems"] inside brace False show ?thesis
          by (auto simp: interpolateLoop.simps [of _ s i])
      qed
    qed
  qed
qed

lemma interpolate_more: "interpolate n s = Some r \<Longrightarrow> interpolate (n + k) s = Some r"
  using interpolateLoop_mono [of n "n + k" s 0 "[]" "[]"]
  by (auto simp: interpolate_def dest: below_Some)


section \<open>Malformed inputs\<close>

text \<open>
  C7.  \<^verbatim>\<open>parse("1 +")\<close>, \<^verbatim>\<open>parse("1 2")\<close> and \<^verbatim>\<open>interpolate("a {{ b")\<close> each throw the syntax
  error that carries the input text unchanged, and so return no node: the first when
  \<^verbatim>\<open>expect('name')\<close> meets the end of the input, the second when \<^verbatim>\<open>parse\<close> finds the
  lexer not at the end, the third when the inner loop of \<^verbatim>\<open>interpolate\<close> runs out of
  input.  This holds under every bound of at least 20 on the depth of the calls.
\<close>

theorem malformed_inputs_throw_SyntaxError:
  "parse (20 + k) ''1 +'' = Some (Inl (SyntaxError ''1 +'')) \<and>
   parse (20 + k) ''1 2'' = Some (Inl (SyntaxError ''1 2'')) \<and>
   interpolate (20 + k) ''a {{ b'' = Some (Inl (SyntaxError ''a {{ b''))"
proof (intro conjI)
  show "parse (20 + k) ''1 +'' = Some (Inl (SyntaxError ''1 +''))"
    by (rule parse_more) code_simp
  show "parse (20 + k) ''1 2'' = Some (Inl (SyntaxError ''1 2''))"
    by (rule parse_more) code_simp
  show "interpolate (20 + k) ''a {{ b'' = Some (Inl (SyntaxError ''a {{ b''))"
    by (rule interpolate_more) code_simp
qed

section \<open>Precedence and associativity\<close>

text \<open>
  \<^verbatim>\<open>_parseRoot\<close> enters the precedence table at index 0 and each level parses its
  operands at the next index, so the first row (\<^verbatim>\<open>**\<close>) binds loosest and the last row
  (the equalities) binds tightest.  The two claims of grouping hold:
  \<^verbatim>\<open>2 ** 3 ** 2\<close> groups to the right and evaluates to 512, \<^verbatim>\<open>10 - 3 - 2\<close> groups to the left
  and evaluates to 5.
\<close>

lemma exponentiation_groups_right:
  "parse (30 + k) ''2 ** 3 ** 2'' =
     Some (Inr (BinaryNode ''**'' (LiteralNode (Some ''2''))
                  (BinaryNode ''**'' (LiteralNode (Some ''3'')) (LiteralNode (Some ''2''))))) \<and>
   compile h (BinaryNode ''**'' (LiteralNode (Some ''2''))
                (BinaryNode ''**'' (LiteralNode (Some ''3'')) (LiteralNode (Some ''2'')))) this =
     Inr (JS_number (Finite 512))"
proof
  show "parse (30 + k) ''2 ** 3 ** 2'' =
     Some (Inr (BinaryNode ''**'' (LiteralNode (Some ''2''))
                  (BinaryNode ''**'' (LiteralNode (Some ''3'')) (LiteralNode (Some ''2'')))))"
    by (rule parse_more) code_simp
  show "compile h (BinaryNode ''**'' (LiteralNode (Some ''2''))
                (BinaryNode ''**'' (LiteralNode (Some ''3'')) (LiteralNode (Some ''2'')))) this =
     Inr (JS_number (Finite 512))"
    by code_simp
qed

lemma subtraction_groups_left:
  "parse (30 + k) ''10 - 3 - 2'' =
     Some (Inr (BinaryNode ''-'' (BinaryNode ''-'' (LiteralNode (Some ''10'')) (LiteralNode (Some ''3'')))
                  (LiteralNode (Some ''2'')))) \<and>
   compile h (BinaryNode ''-'' (BinaryNode ''-'' (LiteralNode (Some ''10'')) (LiteralNode (Some ''3'')))
                (LiteralNode (Some ''2''))) this =
     Inr (JS_number (Finite 5))"
proof
  show "parse (30 + k) ''10 - 3 - 2'' =
     Some (Inr (BinaryNode ''-'' (BinaryNode ''-'' (LiteralNode (Some ''10'')) (LiteralNode (Some ''3'')))
                  (LiteralNode (Some ''2''))))"
    by (rule parse_more) code_simp
  show "compile h (BinaryNode ''-'' (BinaryNode ''-'' (LiteralNode (Some ''10'')) (LiteralNode (Some ''3'')))
                (LiteralNode (Some ''2''))) this =
     Inr (JS_number (Finite 5))"
    by code_simp
qed

text \<open>
  C1.  The claim gives 7 for \<^verbatim>\<open>1 + 2 * 3\<close>.  The parser makes the product of the sum
  \<^verbatim>\<open>1 + 2\<close> and 3, whose text is \<^verbatim>\<open>((1)+(2))*(3)\<close> and whose value is 9, whatever the
  runtime and the context: in the table \<^verbatim>\<open>* / %\<close> stands before \<^verbatim>\<open>+ -\<close>, and so binds
  looser.
\<close>

theorem sum_times_three_is_9:
  "parse (30 + k) ''1 + 2 * 3'' =
     Some (Inr (BinaryNode ''*'' (BinaryNode ''+'' (LiteralNode (Some ''1'')) (LiteralNode (Some ''2'')))
                  (LiteralNode (Some ''3'')))) \<and>
   Node_compile absent
     (BinaryNode ''*'' (BinaryNode ''+'' (LiteralNode (Some ''1'')) (LiteralNode (Some ''2'')))
        (LiteralNode (Some ''3''))) = ''((1)+(2))*(3)'' \<and>
   compile h
     (BinaryNode ''*'' (BinaryNode ''+'' (LiteralNode (Some ''1'')) (LiteralNode (Some ''2'')))
        (LiteralNode (Some ''3''))) this = Inr (JS_number (Finite 9))"
proof (intro conjI)
  show "parse (30 + k) ''1 + 2 * 3'' =
     Some (Inr (BinaryNode ''*'' (BinaryNode ''+'' (LiteralNode (Some ''1'')) (LiteralNode (Some ''2'')))
                  (LiteralNode (Some ''3''))))"
    by (rule parse_more) code_simp
  show "Node_compile absent
     (BinaryNode ''*'' (BinaryNode ''+'' (LiteralNode (Some ''1'')) (LiteralNode (Some ''2'')))
        (LiteralNode (Some ''3''))) = ''((1)+(2))*(3)''"
    by simp
  show "compile h
     (BinaryNode ''*'' (BinaryNode ''+'' (LiteralNode (Some ''1'')) (LiteralNode (Some ''2'')))
        (LiteralNode (Some ''3''))) this = Inr (JS_number (Finite 9))"
    by code_simp
qed

section \<open>Literals\<close>

text \<open>
  The keywords and the integers come back as their values: \<^verbatim>\<open>undefined\<close>, \<^verbatim>\<open>true\<close>,
  \<^verbatim>\<open>false\<close> and, for instance, \<^verbatim>\<open>42\<close> and \<^verbatim>\<open>007\<close>.
\<close>

lemma keyword_and_integer_literals:
  "map_option (map_sum id (\<lambda>e. compile h e this)) (parse (20 + k) ''undefined'') =
     Some (Inr (Inr JS_undefined)) \<and>
   map_option (map_sum id (\<lambda>e. compile h e this)) (parse (20 + k) ''true'') =
     Some (Inr (Inr (JS_boolean True))) \<and>
   map_option (map_sum id (\<lambda>e. compile h e this)) (parse (20 + k) ''false'') =
     Some (Inr (Inr (JS_boolean False))) \<and>
   map_option (map_sum id (\<lambda>e. compile h e this)) (parse (20 + k) ''42'') =
     Some (Inr (Inr (JS_number (Finite 42)))) \<and>
   map_option (map_sum id (\<lambda>e. compile h e this)) (parse (20 + k) ''007'') =
     Some (Inr (Inr (JS_number (Finite 7))))"
proof -
  have "parse (20 + k) ''undefined'' = Some (Inr (LiteralNode None))"
    by (rule parse_more) code_simp
  moreover have "parse (20 + k) ''true'' = Some (Inr (LiteralNode (Some ''true'')))"
    by (rule parse_more) code_simp
  moreover have "parse (20 + k) ''false'' = Some (Inr (LiteralNode (Some ''false'')))"
    by (rule parse_more) code_simp
  moreover have "parse (20 + k) ''42'' = Some (Inr (LiteralNode (Some ''42'')))"
    by (rule parse_more) code_simp
  moreover have "parse (20 + k) ''007'' = Some (Inr (LiteralNode (Some ''7'')))"
    by (rule parse_more) code_simp
  moreover have "compile h (LiteralNode None) this = Inr JS_undefined"
    "compile h (LiteralNode (Some ''true'')) this = Inr (JS_boolean True)"
    "compile h (LiteralNode (Some ''false'')) this = Inr (JS_boolean False)"
    "compile h (LiteralNode (Some ''42'')) this = Inr (JS_number (Finite 42))"
    "compile h (LiteralNode (Some ''7'')) this = Inr (JS_number (Finite 7))"
    by code_simp+
  ultimately show ?thesis by simp
qed

text \<open>
  C2.  The quoted string \<^verbatim>\<open>"abc"\<close> is refused: the double-quote rule matches a quote, then
  groups of one character followed by a backslash and a quote, then a quote, and
  \<^verbatim>\<open>"abc"\<close> is not of that form, nor does any later rule match it, so \<^verbatim>\<open>next\<close> throws the
  syntax error.  A single-quoted string that the single-quote rule does match, such as
  \<^verbatim>\<open>''\<close>, is handed to \<^verbatim>\<open>JSON.parse\<close>, which raises on the single quote.
\<close>

theorem quoted_abc_is_refused:
  \<open>pat_string (CHR 0x22) ''"abc"'' = None \<and>
   parse (20 + k) ''"abc"'' = Some (Inl (SyntaxError ''"abc"'')) \<and>
   parse (20 + k) [CHR 0x27, CHR ''a'', CHR ''b'', CHR ''c'', CHR 0x27] =
     Some (Inl (SyntaxError [CHR 0x27, CHR ''a'', CHR ''b'', CHR ''c'', CHR 0x27])) \<and>
   parse (20 + k) [CHR 0x27, CHR 0x27] = Some (Inl NativeSyntaxError)\<close>
proof (intro conjI)
  show \<open>pat_string (CHR 0x22) ''"abc"'' = None\<close>
    by code_simp
  show \<open>parse (20 + k) ''"abc"'' = Some (Inl (SyntaxError ''"abc"''))\<close>
    by (rule parse_more) code_simp
  show "parse (20 + k) [CHR 0x27, CHR ''a'', CHR ''b'', CHR ''c'', CHR 0x27] =
     Some (Inl (SyntaxError [CHR 0x27, CHR ''a'', CHR ''b'', CHR ''c'', CHR 0x27]))"
    by (rule parse_more) code_simp
  show "parse (20 + k) [CHR 0x27, CHR 0x27] = Some (Inl NativeSyntaxError)"
    by (rule parse_more) code_simp
qed

section \<open>The logical operators\<close>

text \<open>
  C4.  The lexer makes an operator token of \<^verbatim>\<open>&&\<close>, \<^verbatim>\<open>||\<close> and \<^verbatim>\<open>??\<close>, but no row of the
  precedence table holds them and \<^verbatim>\<open>_parseUnaryNode\<close> takes only \<^verbatim>\<open>+ - !\<close>: after the left
  operand every level returns, \<^verbatim>\<open>parse\<close> finds the lexer not at the end, and throws.  No
  Binary node is made.
\<close>

theorem logical_operators_are_refused:
  "token (snd (projr (lexer_next (new_Lexer ''&& b'')))) = T_operator \<and>
   label (snd (projr (lexer_next (new_Lexer ''&& b'')))) = ''&&'' \<and>
   parse (20 + k) ''a && b'' = Some (Inl (SyntaxError ''a && b'')) \<and>
   parse (20 + k) ''a || b'' = Some (Inl (SyntaxError ''a || b'')) \<and>
   parse (20 + k) ''a ?? b'' = Some (Inl (SyntaxError ''a ?? b''))"
proof (intro conjI)
  show "token (snd (projr (lexer_next (new_Lexer ''&& b'')))) = T_operator"
    by code_simp
  show "label (snd (projr (lexer_next (new_Lexer ''&& b'')))) = ''&&''"
    by code_simp
  show "parse (20 + k) ''a && b'' = Some (Inl (SyntaxError ''a && b''))"
    by (rule parse_more) code_simp
  show "parse (20 + k) ''a || b'' = Some (Inl (SyntaxError ''a || b''))"
    by (rule parse_more) code_simp
  show "parse (20 + k) ''a ?? b'' = Some (Inl (SyntaxError ''a ?? b''))"
    by (rule parse_more) code_simp
qed

section \<open>A lone opening brace at the end of the text\<close>

lemma interpolateLoop_literal:
  "CHR ''{'' \<notin> set p \<Longrightarrow>
   interpolateLoop n (d @ p @ r) (length d) t fs =
   interpolateLoop n (d @ p @ r) (length d + length p) (t @ p) fs"
proof (induction p arbitrary: d t)
  case Nil
  show ?case by simp
next
  case (Cons c p)
  let ?s = "d @ (c # p) @ r"
  from Cons.prems have c: "c \<noteq> CHR ''{''" and p: "CHR ''{'' \<notin> set p" by auto
  have "interpolateLoop n ?s (length d) t fs = interpolateLoop n ?s (length d + 1) (t @ [c]) fs"
    using c by (subst interpolateLoop.simps) (simp add: nth_append)
  also have "\<dots> = interpolateLoop n ((d @ [c]) @ p @ r) (length (d @ [c])) (t @ [c]) fs"
    by simp
  also have "\<dots> = interpolateLoop n ((d @ [c]) @ p @ r) (length (d @ [c]) + length p) ((t @ [c]) @ p) fs"
    using p by (rule Cons.IH)
  finally show ?case by simp
qed

text \<open>
  C10.  When the outer loop of \<^verbatim>\<open>interpolate\<close> stands at the last character of the input
  and that character is an opening brace, \<^verbatim>\<open>++i\<close> leaves the input, so the loop appends the
  brace and the text of \<^verbatim>\<open>input[i]\<close>, which is \<^verbatim>\<open>undefined\<close>, to the text it has gathered,
  and ends: the result is the fragments made so far and one last static fragment that
  ends in \<^verbatim>\<open>{undefined\<close>.  In particular, a text without a brace followed by one opening
  brace gives the single static fragment of the text, the brace and \<^verbatim>\<open>undefined\<close>.  No
  parser is called on the way, so the bound plays no part.
\<close>

theorem lone_brace_at_end_appends_undefined:
  "(s \<noteq> [] \<and> i = length s - 1 \<and> s ! i = CHR ''{'' \<longrightarrow>
      interpolateLoop n s i t fs =
        Some (Inr (InterpolatedNode (fs @ [StaticFragmentNode (t @ ''{undefined'')])))) \<and>
   (CHR ''{'' \<notin> set p \<longrightarrow>
      interpolate n (p @ ''{'') =
        Some (Inr (InterpolatedNode [StaticFragmentNode (p @ ''{undefined'')])))"
proof -
  have last: "interpolateLoop n s i t fs =
        Some (Inr (InterpolatedNode (fs @ [StaticFragmentNode (t @ ''{undefined'')])))"
    if "s \<noteq> [] \<and> i = length s - 1 \<and> s ! i = CHR ''{''" for s i t fs
  proof -
    from that have i: "i < length s" "\<not> i + 1 < length s" "\<not> i + 2 < length s"
      and b: "s ! i = CHR ''{''" by auto
    then have "interpolateLoop n s i t fs =
               interpolateLoop n s (i + 2) (t @ ''{'' @ index_text s (i + 1)) fs"
      by (subst interpolateLoop.simps) simp
    also have "\<dots> =
      Some (Inr (InterpolatedNode (fs @ [StaticFragmentNode (t @ ''{'' @ index_text s (i + 1))])))"
      using i by (subst interpolateLoop.simps) simp
    finally show ?thesis using i by (simp add: index_text_def)
  qed
  have "interpolate n (p @ ''{'') =
        Some (Inr (InterpolatedNode [StaticFragmentNode (p @ ''{undefined'')]))"
    if p: "CHR ''{'' \<notin> set p"
  proof -
    have "interpolate n (p @ ''{'') = interpolateLoop n (p @ ''{'') (length p) p []"
      using interpolateLoop_literal [OF p, of n "[]" "''{''" "[]" "[]"]
      by (simp add: interpolate_def)
    also have "\<dots> = Some (Inr (InterpolatedNode ([] @ [StaticFragmentNode (p @ ''{undefined'')])))"
      by (rule last) (simp add: nth_append)
    finally show ?thesis by simp
  qed
  with last [of s i t fs] show ?thesis by blast
qed

theorem lone_brace_at_end_witness:
  "interpolateLoop 0 ''a{'' 1 ''a'' [] =
     Some (Inr (InterpolatedNode [StaticFragmentNode ''a{undefined''])) \<and>
   interpolate 0 ''a{'' = Some (Inr (InterpolatedNode [StaticFragmentNode ''a{undefined'']))"
  using lone_brace_at_end_appends_undefined
          [where s = "''a{''" and i = 1 and n = 0 and t = "''a''" and fs = "[]" and p = "''a''"]
  by simp

section \<open>Free variables\<close>

text \<open>\<^verbatim>\<open>unique\<close> is the spec's de-duplication of the concatenated elements.\<close>

lemma set_first_occurrences [simp]: "set (first_occurrences xs) = set xs"
  by (induction xs rule: first_occurrences.induct) auto

lemma distinct_first_occurrences [simp]: "distinct (first_occurrences xs)"
  by (induction xs rule: first_occurrences.induct) auto

lemma first_occurrences_distinct: "distinct xs \<Longrightarrow> first_occurrences xs = xs"
proof (induction xs)
  case Nil
  show ?case by simp
next
  case (Cons x xs)
  then have "filter (\<lambda>y. y \<noteq> x) xs = xs" by (auto simp: filter_id_conv)
  with Cons show ?case by simp
qed

lemma foldl_set_add:
  "foldl set_add seen xs = seen @ first_occurrences (filter (\<lambda>x. x \<notin> set seen) xs)"
proof (induction xs arbitrary: seen)
  case Nil
  show ?case by simp
next
  case (Cons x xs)
  show ?case
  proof (cases "x \<in> set seen")
    case True
    with Cons [of seen] show ?thesis by (simp add: set_add_def)
  next
    case False
    have "filter (\<lambda>y. y \<notin> set (seen @ [x])) xs =
          filter (\<lambda>y. y \<noteq> x) (filter (\<lambda>y. y \<notin> set seen) xs)"
      by (auto intro: filter_cong)
    with False Cons [of "seen @ [x]"] show ?thesis by (simp add: set_add_def)
  qed
qed

lemma new_Set_first_occurrences: "new_Set xs = first_occurrences xs"
  by (simp add: new_Set_def foldl_set_add)

lemma unique_first_occurrences: "unique es = first_occurrences (concat (map members es))"
  by (simp add: unique_def new_Set_first_occurrences)

lemma distinct_free: "distinct (free n)"
  by (induction n) (simp_all add: unique_first_occurrences)

text \<open>
  C6.  A literal reads nothing and a variable reads its own name; the list of every other
  node of \<^verbatim>\<open>AST.ts\<close> is the de-duplicated concatenation of its children's lists, after the
  bound name for a \<open>BindNode\<close>, first occurrences kept in their order.  For a \<open>UnaryNode\<close>,
  which returns its child's list as it is, this holds because that list has no
  duplicates.  \<open>free\<close> reads nothing but the node, so a second call returns the same list,
  and de-duplicating the list again changes nothing.
\<close>

theorem free_is_deduplicated_union:
  "free (LiteralNode v) = [] \<and>
   free (VariableNode name) = [name] \<and>
   free (UnaryNode operator inner) = first_occurrences (free inner) \<and>
   free (BinaryNode operator left right) = first_occurrences (free left @ free right) \<and>
   free (BindNode name parameters) = first_occurrences (name # concat (map free parameters)) \<and>
   free (PipeNode left right) = first_occurrences (free left @ free right) \<and>
   distinct (free n) \<and>
   first_occurrences (free n) = free n"
  by (simp add: unique_first_occurrences first_occurrences_distinct distinct_free comp_def)

lemma free_example:
  "free (BinaryNode ''+'' (VariableNode ''x'')
           (BindNode ''f'' [VariableNode ''y'', VariableNode ''x'', VariableNode ''f''])) =
   [''x'', ''f'', ''y'']"
  by code_simp

section \<open>The priority of the lexer's rules\<close>

text \<open>
  C3, as the code has it.  The rules are not mutually exclusive: on \<^verbatim>\<open>true\<close> the keyword
  rule and the identifier rule both match.  What decides is the order: of the rules that
  match the remaining input (white space skipped), \<^verbatim>\<open>next\<close> takes the first, and since
  the keyword rules stand before the identifier rule, the label of a name token is never
  \<^verbatim>\<open>undefined\<close>, \<^verbatim>\<open>true\<close>, \<^verbatim>\<open>false\<close> or \<^verbatim>\<open>in\<close>.
\<close>

theorem first_rule_wins_and_keywords_are_not_names:
  assumes "lexer_next lx = Inr (t, lx')"
  shows "(input lx \<noteq> [] \<and> \<not> isSpace (hd (input lx)) \<longrightarrow> t = hd (matching (input lx))) \<and>
         (t = T_name \<longrightarrow> label lx' \<notin> set keyword_texts)"
  using assms lexer_next_first_match [of lx t lx'] lexer_next_name [of lx lx'] by auto

theorem first_rule_wins_witness:
  "lexer_next (new_Lexer ''index'') =
     Inr (T_name, \<lparr>originalInput = ''index'', input = [], token = T_name, label = ''index''\<rparr>) \<and>
   T_name = hd (matching ''index'') \<and> ''index'' \<notin> set keyword_texts"
proof -
  have n: "lexer_next (new_Lexer ''index'') =
     Inr (T_name, \<lparr>originalInput = ''index'', input = [], token = T_name, label = ''index''\<rparr>)"
    by code_simp
  from first_rule_wins_and_keywords_are_not_names [OF n] n show ?thesis
    by (simp add: new_Lexer_def isSpace_def)
qed

text \<open>
  The claim as stated fails: two rules match \<^verbatim>\<open>true\<close>, and \<^verbatim>\<open>trueFlag\<close> is not one name
  but the keyword \<^verbatim>\<open>true\<close> followed by the name \<^verbatim>\<open>Flag\<close>.
\<close>

theorem rules_overlap_counterexample:
  "matching ''true'' = [T_true, T_name] \<and>
   token_stream ''trueFlag'' = [(T_true, ''true''), (T_name, ''Flag''), (T_end, [])]"
  by (intro conjI; code_simp)

section \<open>Numbers are digit sequences\<close>



section \<open>The opening parenthesis\<close>

text \<open>
  At a \<^verbatim>\<open>(\<close> token \<^verbatim>\<open>_parseValue\<close> calls \<^verbatim>\<open>_parseRoot\<close> without advancing the lexer (the case
  of \<^verbatim>\<open>[\<close> in \<^verbatim>\<open>_parseReferenceComponents\<close> calls \<^verbatim>\<open>next()\<close> first), so the same call comes
  back in the same state: under no bound does a method return or throw.
\<close>

lemma left_parenthesis_recursion:
  assumes "token lx = T_left"
  shows "parseValue n lx = None \<and> parseUnaryNode n lx = None \<and>
         (\<forall>i. parseBinaryNode n i lx = None) \<and> parseRoot n lx = None"
proof (induction n)
  case 0
  show ?case by simp
next
  case (Suc n)
  from Suc assms have "parseValue (Suc n) lx = None"
    by (simp add: parseValue.simps(2) and_then_def)
  moreover from Suc assms have "parseUnaryNode (Suc n) lx = None"
    by (simp add: parseUnaryNode.simps(2))
  moreover from Suc have "parseBinaryNode (Suc n) i lx = None" for i
    by (cases "BINARY_OPERATOR_PRECEDENCE_TABLE ! i")
       (simp add: parseBinaryNode.simps(2) and_then_def)
  moreover from Suc have "parseRoot (Suc n) lx = None"
    by (simp add: parseRoot.simps(2))
  ultimately show ?case by blast
qed

lemma left_parenthesis_never_returns:
  "parse n ''(1)'' = None \<and> parse n ''(1.5)'' = None \<and> parse n ''(|'' = None"
proof -
  have a: "new_Parser ''(1)'' = Inr \<lparr>originalInput = ''(1)'', input = ''1)'', token = T_left, label = ''(''\<rparr>"
    by code_simp
  have b: "new_Parser ''(1.5)'' = Inr \<lparr>originalInput = ''(1.5)'', input = ''1.5)'', token = T_left, label = ''(''\<rparr>"
    by code_simp
  have c: "new_Parser ''(|'' = Inr \<lparr>originalInput = ''(|'', input = ''|'', token = T_left, label = ''(''\<rparr>"
    by code_simp
  have "Parser_parse n lx = None" if "token lx = T_left" for lx
    using left_parenthesis_recursion [OF that, of n] by (simp add: Parser_parse_def and_then_def)
  with a b c show ?thesis by (simp add: parse_def result_def)
qed

section \<open>No pipe and no bind\<close>

lemma passes_refl [simp]: "passes lx lx"
  unfolding passes_def by (rule exI [of _ "[]"]) simp



lemma good_simps [simp]:
  "good lx None" "good lx (Some (Inl e))" "good lx (throws e)"
  "good lx (returns node lx') = (\<not> has_Pipe_or_Bind node \<and> passes lx lx')"
  by (simp_all add: good_def throws_def returns_def)








lemma literal_clean [simp]: "\<not> has_Pipe_or_Bind (new_LiteralNode v)"
  by (simp add: new_LiteralNode_def)
















section \<open>The safe forms\<close>






end
